theory Spec2Isabelle
  imports Complex_Main "HOL-Library.FSet"
begin

section \<open>Data model of the game client (src/game.js)\<close>

text \<open>
  The class \<open>GameClient\<close> is embedded as a record of its fields and every method as a
  function from the state to the new state, paired with the effects the method has on
  the outside (messages sent on the socket, timers scheduled, images whose decoding is
  started, canvas operations issued). JavaScript numbers are modelled as \<open>real\<close>
  (positions, sizes) or as \<open>nat\<close>/\<open>int\<close> (counters and indices); objects used as
  dictionaries are maps. Fields of the nested objects carry a prefix, since \<open>x\<close>,
  \<open>id\<close>, \<open>width\<close> and the like would clash with variables and HOL constants:
  \<open>p_\<close> for a player, \<open>a_\<close> for an avatar, \<open>c_\<close> for a cache entry, \<open>v_\<close> for the viewport.
  Console logging and \<open>preventDefault\<close> have no effect on the state and are left out.
\<close>

record player =
  p_id :: string
  p_username :: string
  p_x :: real
  p_y :: real
  p_facing :: string
  p_avatar :: string
  p_animationFrame :: "int option"

text \<open>\<open>a_frames\<close> is \<open>None\<close> when the avatar object has no \<open>frames\<close> property; otherwise it
  lists the directions in the order of \<open>Object.keys\<close>, each with its frame sources.\<close>

record avatar =
  a_name :: string
  a_frames :: "(string \<times> string list) list option"

text \<open>An entry of \<open>avatarImageCache\<close>: the decoded image (identified by its source) and its
  natural dimensions.\<close>

record cached_image =
  c_image :: string
  c_width :: real
  c_height :: real

record viewport_rect =
  v_x :: real
  v_y :: real
  v_width :: real
  v_height :: real

datatype ready_state = CONNECTING | OPEN | CLOSING | CLOSED

record game_client =
  canvas_width :: real
  canvas_height :: real
  worldWidth :: real
  worldHeight :: real
  players :: "string \<rightharpoonup> player"
  avatars :: "string \<rightharpoonup> avatar"
  myPlayerId :: "string option"
  myPlayer :: "player option"
  avatarImageCache :: "string \<rightharpoonup> cached_image"
  viewport :: viewport_rect
  ws :: "ready_state option"
  reconnectAttempts :: nat
  maxReconnectAttempts :: nat
  pressedKeys :: "string fset"

text \<open>The field initialisers of the constructor (lines 3 to 38). The canvas element comes
  from the page, so its initial size is a parameter; \<open>setupCanvas\<close> overwrites it.\<close>

definition constructor_fields :: "real \<Rightarrow> real \<Rightarrow> game_client" where
  "constructor_fields cw ch =
     \<lparr> canvas_width = cw, canvas_height = ch,
       worldWidth = 2048, worldHeight = 2048,
       players = Map.empty, avatars = Map.empty,
       myPlayerId = None, myPlayer = None,
       avatarImageCache = Map.empty,
       viewport = \<lparr> v_x = 0, v_y = 0, v_width = 0, v_height = 0 \<rparr>,
       ws = None, reconnectAttempts = 0, maxReconnectAttempts = 5,
       pressedKeys = {||} \<rparr>"

text \<open>\<open>setupCanvas\<close> (lines 52 to 67): the canvas takes the world's dimensions and the
  viewport takes the canvas's.\<close>

definition setupCanvas :: "game_client \<Rightarrow> game_client" where
  "setupCanvas st =
     (let st1 = st\<lparr> canvas_width := worldWidth st \<rparr>;
          st2 = st1\<lparr> canvas_height := worldHeight st1 \<rparr>;
          st3 = st2\<lparr> viewport := (viewport st2)\<lparr> v_width := canvas_width st2 \<rparr> \<rparr>
      in st3\<lparr> viewport := (viewport st3)\<lparr> v_height := canvas_height st3 \<rparr> \<rparr>)"

section \<open>Viewport\<close>

text \<open>\<open>clampViewportToWorld\<close> (lines 281 to 284).\<close>

definition clampViewportToWorld :: "game_client \<Rightarrow> game_client" where
  "clampViewportToWorld st =
     (let st1 = st\<lparr> viewport := (viewport st)\<lparr> v_x :=
                   max 0 (min (v_x (viewport st)) (worldWidth st - v_width (viewport st))) \<rparr> \<rparr>
      in st1\<lparr> viewport := (viewport st1)\<lparr> v_y :=
                   max 0 (min (v_y (viewport st1)) (worldHeight st1 - v_height (viewport st1))) \<rparr> \<rparr>)"

text \<open>\<open>centerViewportOnPlayer\<close> (lines 270 to 279): nothing happens without a local player.\<close>

definition centerViewportOnPlayer :: "game_client \<Rightarrow> game_client" where
  "centerViewportOnPlayer st =
     (case myPlayer st of
        None \<Rightarrow> st
      | Some p \<Rightarrow>
          (let st1 = st\<lparr> viewport := (viewport st)\<lparr> v_x := p_x p - v_width (viewport st) / 2 \<rparr> \<rparr>;
               st2 = st1\<lparr> viewport := (viewport st1)\<lparr> v_y := p_y p - v_height (viewport st1) / 2 \<rparr> \<rparr>
           in clampViewportToWorld st2))"

text \<open>A run of recenterings, the local player changing before each one.\<close>

definition recenter_each :: "player option list \<Rightarrow> game_client \<Rightarrow> game_client" where
  "recenter_each ps st = fold (\<lambda>p s. centerViewportOnPlayer (s\<lparr> myPlayer := p \<rparr>)) ps st"

section \<open>Keyboard input\<close>

text \<open>The table \<open>movementKeys\<close> of the constructor (lines 33 to 38).\<close>

definition movementKeys :: "string \<rightharpoonup> string" where
  "movementKeys =
     [''ArrowUp'' \<mapsto> ''up'', ''ArrowDown'' \<mapsto> ''down'',
      ''ArrowLeft'' \<mapsto> ''left'', ''ArrowRight'' \<mapsto> ''right'']"

text \<open>The JSON objects the client sends on the socket.\<close>

datatype client_message = JoinGame string | Move string | Stop

text \<open>\<open>sendMoveCommand\<close> and \<open>sendStopCommand\<close> (lines 122 to 139) send only on an open
  socket; the result is the list of messages sent.\<close>

definition sendMoveCommand :: "game_client \<Rightarrow> string \<Rightarrow> client_message list" where
  "sendMoveCommand st direction = (if ws st = Some OPEN then [Move direction] else [])"

definition sendStopCommand :: "game_client \<Rightarrow> client_message list" where
  "sendStopCommand st = (if ws st = Some OPEN then [Stop] else [])"

text \<open>\<open>handleKeyDown\<close> (lines 92 to 104), on the \<open>code\<close> of the event.\<close>

definition handleKeyDown :: "game_client \<Rightarrow> string \<Rightarrow> game_client \<times> client_message list" where
  "handleKeyDown st code =
     (case movementKeys code of
        None \<Rightarrow> (st, [])
      | Some direction \<Rightarrow>
          (let st1 = st\<lparr> pressedKeys := finsert code (pressedKeys st) \<rparr>
           in (st1, sendMoveCommand st1 direction)))"

text \<open>\<open>handleKeyUp\<close> (lines 107 to 120).\<close>

definition handleKeyUp :: "game_client \<Rightarrow> string \<Rightarrow> game_client \<times> client_message list" where
  "handleKeyUp st code =
     (case movementKeys code of
        None \<Rightarrow> (st, [])
      | Some direction \<Rightarrow>
          (let st1 = st\<lparr> pressedKeys := pressedKeys st |-| {|code|} \<rparr>
           in (st1, if fcard (pressedKeys st1) = 0 then sendStopCommand st1 else [])))"

text \<open>The two listeners of \<open>setupKeyboardControls\<close> (lines 82 to 90), run over a sequence
  of keyboard events; the messages sent are collected in order.\<close>

datatype key_event = KeyDown string | KeyUp string

fun key_listener :: "game_client \<Rightarrow> key_event \<Rightarrow> game_client \<times> client_message list" where
  "key_listener st (KeyDown code) = handleKeyDown st code"
| "key_listener st (KeyUp code) = handleKeyUp st code"

fun run_keys :: "key_event list \<Rightarrow> game_client \<Rightarrow> game_client \<times> client_message list" where
  "run_keys [] st = (st, [])"
| "run_keys (e # es) st =
     (let (st1, out1) = key_listener st e;
          (st2, out2) = run_keys es st1
      in (st2, out1 @ out2))"

section \<open>Connection and reconnection\<close>

text \<open>\<open>attemptReconnect\<close> (lines 181 to 191): the state and the delay of the timer it
  schedules, if any. The delay is computed after the counter is incremented.\<close>

definition attemptReconnect :: "game_client \<Rightarrow> game_client \<times> nat option" where
  "attemptReconnect st =
     (if reconnectAttempts st < maxReconnectAttempts st then
        (let st1 = st\<lparr> reconnectAttempts := reconnectAttempts st + 1 \<rparr>
         in (st1, Some (2000 * reconnectAttempts st1)))
      else (st, None))"

text \<open>\<open>connectToServer\<close> (lines 153 to 179). The flag says whether creating the socket
  throws, which takes the \<open>catch\<close> branch. The handlers installed on the socket are the
  functions \<open>ws_onopen\<close> and \<open>ws_onclose\<close> below; \<open>onerror\<close> only logs.\<close>

definition connectToServer :: "bool \<Rightarrow> game_client \<Rightarrow> game_client \<times> nat option" where
  "connectToServer throws st =
     (if throws then attemptReconnect st else (st\<lparr> ws := Some CONNECTING \<rparr>, None))"

text \<open>\<open>joinGame\<close> (lines 193 to 200).\<close>

definition joinGame :: "game_client \<Rightarrow> client_message list" where
  "joinGame st = [JoinGame ''Dawn'']"

text \<open>The socket's \<open>onopen\<close> and \<open>onclose\<close> handlers (lines 157 to 170); the browser has
  set the socket's \<open>readyState\<close> before it calls them.\<close>

definition ws_onopen :: "game_client \<Rightarrow> game_client \<times> client_message list" where
  "ws_onopen st =
     (let st1 = st\<lparr> ws := Some OPEN \<rparr>;
          st2 = st1\<lparr> reconnectAttempts := 0 \<rparr>
      in (st2, joinGame st2))"

definition ws_onclose :: "game_client \<Rightarrow> game_client \<times> nat option" where
  "ws_onclose st = attemptReconnect (st\<lparr> ws := Some CLOSED \<rparr>)"

text \<open>Consecutive failed cycles: the socket closes, \<open>attemptReconnect\<close> schedules a timer,
  the timer runs \<open>connectToServer\<close>, and the new socket closes in turn. The cycle ends when
  no timer is scheduled; the result is the list of the delays scheduled.\<close>

function failed_cycles :: "game_client \<Rightarrow> nat list" where
  "failed_cycles st =
     (case ws_onclose st of
        (st1, None) \<Rightarrow> []
      | (st1, Some delay) \<Rightarrow> delay # failed_cycles (fst (connectToServer False st1)))"
  by pat_completeness auto
termination
  by (relation "measure (\<lambda>st. maxReconnectAttempts st - reconnectAttempts st)")
     (auto simp: ws_onclose_def attemptReconnect_def connectToServer_def Let_def
           split: if_splits)

declare failed_cycles.simps [simp del]

section \<open>Player table\<close>

text \<open>\<open>handlePlayersMoved\<close> (lines 254 to 262) on the \<open>players\<close> object of the message;
  \<open>Object.assign\<close> stores every entry of the message's object in the table.\<close>

definition handlePlayersMoved :: "game_client \<Rightarrow> (string \<rightharpoonup> player) \<Rightarrow> game_client" where
  "handlePlayersMoved st delta =
     (let st1 = st\<lparr> players := players st ++ delta \<rparr>
      in case myPlayerId st1 of
           None \<Rightarrow> st1
         | Some pid \<Rightarrow>
             if pid \<noteq> [] \<and> delta pid \<noteq> None
             then centerViewportOnPlayer (st1\<lparr> myPlayer := delta pid \<rparr>)
             else st1)"

text \<open>A run of \<open>players_moved\<close> messages.\<close>

definition moves_applied :: "(string \<rightharpoonup> player) list \<Rightarrow> game_client \<Rightarrow> game_client" where
  "moves_applied deltas st = fold (\<lambda>delta s. handlePlayersMoved s delta) deltas st"

text \<open>\<open>handlePlayerLeft\<close> (lines 265 to 268).\<close>

definition handlePlayerLeft :: "game_client \<Rightarrow> string \<Rightarrow> game_client" where
  "handlePlayerLeft st playerId = st\<lparr> players := (players st)(playerId := None) \<rparr>"

section \<open>Sprite cache and drawing\<close>

text \<open>A number inside a template literal is rendered in decimal.\<close>

definition digit_of :: "nat \<Rightarrow> char" where
  "digit_of d = ''0123456789'' ! d"

fun show_nat :: "nat \<Rightarrow> string" where
  "show_nat n = (if n < 10 then [digit_of n] else show_nat (n div 10) @ [digit_of (n mod 10)])"

declare show_nat.simps [simp del]

definition show_int :: "int \<Rightarrow> string" where
  "show_int i = (if i < 0 then CHR ''-'' # show_nat (nat (- i)) else show_nat (nat i))"

text \<open>The template \<open>${name}_${direction}_${index}\<close> of lines 326 and 362.\<close>

definition cacheKey :: "string \<Rightarrow> string \<Rightarrow> int \<Rightarrow> string" where
  "cacheKey name direction frameIndex = name @ ''_'' @ direction @ ''_'' @ show_int frameIndex"

text \<open>The inner loop of \<open>preloadAvatarImages\<close> (lines 325 to 339) over the frames of one
  direction: for every frame whose key has no cache entry an image is created and its
  source set, which starts the decoding. The result lists the images created, each with
  the key its \<open>onload\<close> handler will store it under. The cache itself changes only when
  an \<open>onload\<close> handler runs, which is never during the loop.\<close>

definition preloadDirection ::
    "game_client \<Rightarrow> avatar \<Rightarrow> string \<Rightarrow> string list \<Rightarrow> (string \<times> string) list" where
  "preloadDirection st av direction frs =
     concat (map (\<lambda>(frameIndex, frameData).
                    (let key = cacheKey (a_name av) direction (int frameIndex)
                     in if avatarImageCache st key = None then [(key, frameData)] else []))
                 (enumerate 0 frs))"

text \<open>\<open>preloadAvatarImages\<close> (lines 321 to 341).\<close>

definition preloadAvatarImages :: "game_client \<Rightarrow> avatar option \<Rightarrow> (string \<times> string) list" where
  "preloadAvatarImages st avatar =
     (case avatar of
        None \<Rightarrow> []
      | Some av \<Rightarrow>
          (case a_frames av of
             None \<Rightarrow> []
           | Some fr \<Rightarrow>
               concat (map (\<lambda>direction.
                              (case map_of fr direction of
                                 None \<Rightarrow> []
                               | Some frs \<Rightarrow> preloadDirection st av direction frs))
                           (map fst fr))))"

text \<open>The \<open>onload\<close> handler of an image (lines 329 to 336), given the natural dimensions
  the decoder found.\<close>

definition image_onload :: "game_client \<Rightarrow> string \<Rightarrow> string \<Rightarrow> real \<Rightarrow> real \<Rightarrow> game_client" where
  "image_onload st key src naturalWidth naturalHeight =
     st\<lparr> avatarImageCache := (avatarImageCache st)
           (key \<mapsto> \<lparr> c_image = src, c_width = naturalWidth, c_height = naturalHeight \<rparr>) \<rparr>"

text \<open>All the images of a list finish loading, one after the other; \<open>dims\<close> gives the
  natural dimensions of a source.\<close>

definition loads_complete ::
    "(string \<Rightarrow> real \<times> real) \<Rightarrow> (string \<times> string) list \<Rightarrow> game_client \<Rightarrow> game_client" where
  "loads_complete dims loads st =
     fold (\<lambda>(key, src) s. image_onload s key src (fst (dims src)) (snd (dims src))) loads st"

text \<open>\<open>handlePlayerJoined\<close> (lines 247 to 252), on the player and the avatar of the
  message; the result includes the images whose decoding is started.\<close>

definition handlePlayerJoined ::
    "game_client \<Rightarrow> player \<Rightarrow> avatar \<Rightarrow> game_client \<times> (string \<times> string) list" where
  "handlePlayerJoined st p av =
     (let st1 = st\<lparr> players := (players st)(p_id p \<mapsto> p) \<rparr>;
          st2 = st1\<lparr> avatars := (avatars st1)(a_name av \<mapsto> av) \<rparr>
      in (st2, preloadAvatarImages st2 (Some av)))"

text \<open>\<open>getAvatarFrame\<close> (lines 393 to 404). \<open>animationFrame || 0\<close> is 0 for a missing
  index; reading an array outside its bounds gives \<open>undefined\<close>, here \<open>None\<close>.\<close>

definition getAvatarFrame :: "avatar \<Rightarrow> string \<Rightarrow> int option \<Rightarrow> string option" where
  "getAvatarFrame av facing animationFrame =
     (case a_frames av of
        None \<Rightarrow> None
      | Some fr \<Rightarrow>
          (let direction = (if facing = ''west'' then ''east'' else facing)
           in case map_of fr direction of
                None \<Rightarrow> None
              | Some frames \<Rightarrow>
                  (let frameIndex = min (case animationFrame of None \<Rightarrow> 0 | Some i \<Rightarrow> i)
                                        (int (length frames) - 1)
                   in if 0 \<le> frameIndex \<and> frameIndex < int (length frames)
                      then Some (frames ! nat frameIndex) else None)))"

text \<open>The operations issued on the 2D context of the canvas.\<close>

datatype canvas_op =
    Save | Restore | Scale real real
  | DrawImage string real real real real
  | SetFillStyle string | SetStrokeStyle string | SetLineWidth real
  | SetFont string | SetTextAlign string
  | StrokeText string real real | FillText string real real

text \<open>\<open>drawPlayerLabel\<close> (lines 406 to 420).\<close>

definition drawPlayerLabel :: "player \<Rightarrow> real \<Rightarrow> real \<Rightarrow> canvas_op list" where
  "drawPlayerLabel p lx ly =
     (let shortId = take 4 (p_id p);
          labelText = p_username p @ '' ('' @ shortId @ '')''
      in [SetFillStyle ''white'', SetStrokeStyle ''black'', SetLineWidth 2,
          SetFont ''12px Arial'', SetTextAlign ''center'',
          StrokeText labelText lx ly, FillText labelText lx ly])"

text \<open>\<open>drawPlayer\<close> (lines 343 to 391): the canvas operations issued for one player, none
  when the method returns early or finds no cached image. A frame whose source is the
  empty string is falsy and returns early too. The quotient \<open>naturalWidth / naturalHeight\<close>
  is the program's for a natural height other than 0.\<close>

definition drawPlayer :: "game_client \<Rightarrow> player \<Rightarrow> canvas_op list" where
  "drawPlayer st p =
     (case avatars st (p_avatar p) of
        None \<Rightarrow> []
      | Some av \<Rightarrow>
          (let screenX = p_x p - v_x (viewport st);
               screenY = p_y p - v_y (viewport st)
           in if screenX < - 50 \<or> screenX > v_width (viewport st) + 50 \<or>
                 screenY < - 50 \<or> screenY > v_height (viewport st) + 50
              then []
              else
                (case getAvatarFrame av (p_facing p) (p_animationFrame p) of
                   None \<Rightarrow> []
                 | Some frameData \<Rightarrow>
                     if frameData = [] then []
                     else
                       (let key = cacheKey (a_name av) (p_facing p)
                                    (case p_animationFrame p of None \<Rightarrow> 0 | Some i \<Rightarrow> i)
                        in case avatarImageCache st key of
                             None \<Rightarrow> []
                           | Some cachedData \<Rightarrow>
                               (let img = c_image cachedData;
                                    naturalWidth = c_width cachedData;
                                    naturalHeight = c_height cachedData;
                                    baseHeight = 128;
                                    aspectRatio = naturalWidth / naturalHeight;
                                    displayWidth = baseHeight * aspectRatio;
                                    displayHeight = baseHeight;
                                    drawX = screenX - displayWidth / 2;
                                    drawY = screenY - displayHeight / 2
                                in (if p_facing p = ''west''
                                    then [Save, Scale (- 1) 1,
                                          DrawImage img (- drawX - displayWidth) drawY
                                            displayWidth displayHeight,
                                          Restore]
                                    else [DrawImage img drawX drawY displayWidth displayHeight])
                                   @ drawPlayerLabel p screenX (screenY - displayHeight / 2 - 5))))))"

section \<open>The frames of an avatar, for reasoning about the preload\<close>

text \<open>Every frame of an avatar with its cache key, in the order in which the loops of
  \<open>preloadAvatarImages\<close> visit them; the preload starts the decoding of those that are
  \<open>uncached\<close>. \<open>decodes_of key loads\<close> are the decodings started for one key.\<close>

definition directionFrames :: "avatar \<Rightarrow> string \<Rightarrow> string list \<Rightarrow> (string \<times> string) list" where
  "directionFrames av direction frs =
     map (\<lambda>(frameIndex, frameData). (cacheKey (a_name av) direction (int frameIndex), frameData))
         (enumerate 0 frs)"

definition avatarFrames :: "avatar \<Rightarrow> (string \<times> string) list" where
  "avatarFrames av =
     (case a_frames av of
        None \<Rightarrow> []
      | Some fr \<Rightarrow>
          concat (map (\<lambda>direction.
                         (case map_of fr direction of
                            None \<Rightarrow> []
                          | Some frs \<Rightarrow> directionFrames av direction frs))
                      (map fst fr)))"

definition uncached :: "game_client \<Rightarrow> string \<times> string \<Rightarrow> bool" where
  "uncached st = (\<lambda>(key, src). avatarImageCache st key = None)"

definition decodes_of :: "string \<Rightarrow> (string \<times> string) list \<Rightarrow> (string \<times> string) list" where
  "decodes_of key loads = filter (\<lambda>(k, src). k = key) loads"

section \<open>Example inputs\<close>

text \<open>A client whose socket has opened, as the page creates it.\<close>

definition open_client :: game_client where
  "open_client =
     fst (ws_onopen (fst (connectToServer False (setupCanvas (constructor_fields 300 150)))))"

text \<open>An avatar with two frames for east and one for south, and none for west.\<close>

definition knight :: avatar where
  "knight = \<lparr> a_name = ''knight'',
              a_frames = Some [(''east'', [''E0'', ''E1'']), (''south'', [''S0''])] \<rparr>"

definition sprite_dims :: "string \<Rightarrow> real \<times> real" where
  "sprite_dims src = (64, 128)"

definition ann :: player where
  "ann = \<lparr> p_id = ''p1-abcdef'', p_username = ''Ann'', p_x = 100, p_y = 100,
           p_facing = ''east'', p_avatar = ''knight'', p_animationFrame = Some 0 \<rparr>"

text \<open>The client after \<open>ann\<close> joined with the avatar \<open>knight\<close> and every image the preload
  started has finished loading.\<close>

definition loaded_client :: game_client where
  "loaded_client =
     (let (st, loads) = handlePlayerJoined open_client ann knight
      in loads_complete sprite_dims loads st)"

text \<open>The open client with some of the arrow keys held.\<close>

definition up_held :: game_client where
  "up_held = open_client\<lparr> pressedKeys := {|''ArrowUp''|} \<rparr>"

definition left_held :: game_client where
  "left_held = open_client\<lparr> pressedKeys := {|''ArrowLeft''|} \<rparr>"

definition up_left_held :: game_client where
  "up_left_held = open_client\<lparr> pressedKeys := {|''ArrowUp'', ''ArrowLeft''|} \<rparr>"

text \<open>The same client in a world larger, and in a world smaller, than its viewport, with a
  local player near the right edge.\<close>

definition wide_world :: game_client where
  "wide_world = open_client\<lparr> worldWidth := 4096, worldHeight := 4096,
                              myPlayer := Some (ann\<lparr> p_x := 3500 \<rparr>) \<rparr>"

definition narrow_world :: game_client where
  "narrow_world = open_client\<lparr> worldWidth := 1000, worldHeight := 1000,
                                myPlayer := Some (ann\<lparr> p_x := 3500 \<rparr>) \<rparr>"

definition bob :: player where
  "bob = \<lparr> p_id = ''p2-uvwxyz'', p_username = ''Bob'', p_x = 300, p_y = 250,
           p_facing = ''south'', p_avatar = ''knight'', p_animationFrame = None \<rparr>"

text \<open>A table of two players, the first being the local one, and a new record for the
  first in which position, facing and frame differ.\<close>

definition two_players :: game_client where
  "two_players =
     open_client\<lparr> players := [''p1-abcdef'' \<mapsto> ann, ''p2-uvwxyz'' \<mapsto> bob],
                   myPlayerId := Some ''p1-abcdef'', myPlayer := Some ann \<rparr>"

definition ann_moved :: player where
  "ann_moved = \<lparr> p_id = ''p1-abcdef'', p_username = ''Ann'', p_x = 104, p_y = 100,
                 p_facing = ''west'', p_avatar = ''knight'', p_animationFrame = None \<rparr>"

lemmas example_defs =
  open_client_def ws_onopen_def connectToServer_def setupCanvas_def constructor_fields_def
  joinGame_def knight_def ann_def sprite_dims_def wide_world_def narrow_world_def

section \<open>Properties of the viewport\<close>

lemma centerViewportOnPlayer_x:
  "myPlayer st = Some p \<Longrightarrow>
   v_x (viewport (centerViewportOnPlayer st)) =
     max 0 (min (p_x p - v_width (viewport st) / 2) (worldWidth st - v_width (viewport st)))"
  by (simp add: centerViewportOnPlayer_def clampViewportToWorld_def Let_def)

lemma centerViewportOnPlayer_y:
  "myPlayer st = Some p \<Longrightarrow>
   v_y (viewport (centerViewportOnPlayer st)) =
     max 0 (min (p_y p - v_height (viewport st) / 2) (worldHeight st - v_height (viewport st)))"
  by (simp add: centerViewportOnPlayer_def clampViewportToWorld_def Let_def)

lemma centerViewportOnPlayer_frame:
  "v_width (viewport (centerViewportOnPlayer st)) = v_width (viewport st)"
  "v_height (viewport (centerViewportOnPlayer st)) = v_height (viewport st)"
  "worldWidth (centerViewportOnPlayer st) = worldWidth st"
  "worldHeight (centerViewportOnPlayer st) = worldHeight st"
  by (simp_all add: centerViewportOnPlayer_def clampViewportToWorld_def Let_def
        split: option.splits)

text \<open>
  Claim C4. After the camera is recentred on a position, on each axis the camera
  coordinate lies in \<open>[0, worldSize - viewportSize]\<close> when the world is at least as large
  as the viewport, and it is 0 when the world is at most as large as the viewport.
\<close>

theorem viewport_clamp_invariant:
  assumes "myPlayer st = Some p"
  shows "(v_width (viewport st) \<le> worldWidth st \<longrightarrow>
            0 \<le> v_x (viewport (centerViewportOnPlayer st)) \<and>
            v_x (viewport (centerViewportOnPlayer st)) \<le> worldWidth st - v_width (viewport st))
       \<and> (v_height (viewport st) \<le> worldHeight st \<longrightarrow>
            0 \<le> v_y (viewport (centerViewportOnPlayer st)) \<and>
            v_y (viewport (centerViewportOnPlayer st)) \<le> worldHeight st - v_height (viewport st))
       \<and> (worldWidth st \<le> v_width (viewport st) \<longrightarrow>
            v_x (viewport (centerViewportOnPlayer st)) = 0)
       \<and> (worldHeight st \<le> v_height (viewport st) \<longrightarrow>
            v_y (viewport (centerViewportOnPlayer st)) = 0)"
  using assms
  by (simp add: centerViewportOnPlayer_x centerViewportOnPlayer_y max_def min_def)

theorem viewport_clamp_invariant_witness:
  "myPlayer wide_world = Some (ann\<lparr> p_x := 3500 \<rparr>)
   \<and> v_width (viewport wide_world) \<le> worldWidth wide_world
   \<and> v_height (viewport wide_world) \<le> worldHeight wide_world
   \<and> 0 \<le> v_x (viewport (centerViewportOnPlayer wide_world))
   \<and> v_x (viewport (centerViewportOnPlayer wide_world))
        \<le> worldWidth wide_world - v_width (viewport wide_world)
   \<and> 0 \<le> v_y (viewport (centerViewportOnPlayer wide_world))
   \<and> v_y (viewport (centerViewportOnPlayer wide_world))
        \<le> worldHeight wide_world - v_height (viewport wide_world)
   \<and> myPlayer narrow_world = Some (ann\<lparr> p_x := 3500 \<rparr>)
   \<and> worldWidth narrow_world \<le> v_width (viewport narrow_world)
   \<and> worldHeight narrow_world \<le> v_height (viewport narrow_world)
   \<and> v_x (viewport (centerViewportOnPlayer narrow_world)) = 0
   \<and> v_y (viewport (centerViewportOnPlayer narrow_world)) = 0"
proof -
  have w: "myPlayer wide_world = Some (ann\<lparr> p_x := 3500 \<rparr>)"
    by (simp add: example_defs Let_def)
  have n: "myPlayer narrow_world = Some (ann\<lparr> p_x := 3500 \<rparr>)"
    by (simp add: example_defs Let_def)
  have dims: "v_width (viewport wide_world) = 2048" "worldWidth wide_world = 4096"
      "v_height (viewport wide_world) = 2048" "worldHeight wide_world = 4096"
      "v_width (viewport narrow_world) = 2048" "worldWidth narrow_world = 1000"
      "v_height (viewport narrow_world) = 2048" "worldHeight narrow_world = 1000"
    by (simp_all add: example_defs Let_def)
  show ?thesis
    using viewport_clamp_invariant [OF w] viewport_clamp_invariant [OF n] w n
    by (simp add: dims)
qed

text \<open>In the wide world the clamp is active at the upper bound: the camera stops at the
  world's right edge.\<close>

lemma wide_world_camera: "v_x (viewport (centerViewportOnPlayer wide_world)) = 2048"
  by (simp add: centerViewportOnPlayer_x [where p = "ann\<lparr> p_x := 3500 \<rparr>"] example_defs Let_def)

subsection \<open>The shipped configuration\<close>

lemma recenter_shipped:
  assumes "viewport st = \<lparr> v_x = 0, v_y = 0, v_width = 2048, v_height = 2048 \<rparr>"
      and "worldWidth st = 2048" and "worldHeight st = 2048"
  shows "viewport (centerViewportOnPlayer (st\<lparr> myPlayer := p \<rparr>)) = viewport st
       \<and> worldWidth (centerViewportOnPlayer (st\<lparr> myPlayer := p \<rparr>)) = 2048
       \<and> worldHeight (centerViewportOnPlayer (st\<lparr> myPlayer := p \<rparr>)) = 2048"
  using assms
  by (cases p)
     (simp_all add: centerViewportOnPlayer_def clampViewportToWorld_def Let_def max_def min_def)

lemma recenter_each_shipped:
  assumes "viewport st = \<lparr> v_x = 0, v_y = 0, v_width = 2048, v_height = 2048 \<rparr>"
      and "worldWidth st = 2048" and "worldHeight st = 2048"
  shows "viewport (recenter_each ps st) = \<lparr> v_x = 0, v_y = 0, v_width = 2048, v_height = 2048 \<rparr>"
  using assms unfolding recenter_each_def
proof (induction ps arbitrary: st)
  case Nil
  then show ?case by simp
next
  case (Cons p ps)
  from recenter_shipped [OF Cons.prems, of p] Cons.prems(1)
  show ?case by (simp add: Cons.IH)
qed

lemma handlePlayersMoved_shipped:
  assumes "viewport st = \<lparr> v_x = 0, v_y = 0, v_width = 2048, v_height = 2048 \<rparr>"
      and "worldWidth st = 2048" and "worldHeight st = 2048"
  shows "viewport (handlePlayersMoved st delta) = viewport st
       \<and> worldWidth (handlePlayersMoved st delta) = 2048
       \<and> worldHeight (handlePlayersMoved st delta) = 2048"
proof -
  let ?st1 = "st\<lparr> players := players st ++ delta \<rparr>"
  have inv: "viewport ?st1 = \<lparr> v_x = 0, v_y = 0, v_width = 2048, v_height = 2048 \<rparr>"
      "worldWidth ?st1 = 2048" "worldHeight ?st1 = 2048"
    using assms by simp_all
  show ?thesis
    using recenter_shipped [OF inv] assms
    by (simp add: handlePlayersMoved_def Let_def split: option.splits)
qed

lemma moves_applied_shipped:
  assumes "viewport st = \<lparr> v_x = 0, v_y = 0, v_width = 2048, v_height = 2048 \<rparr>"
      and "worldWidth st = 2048" and "worldHeight st = 2048"
  shows "viewport (moves_applied deltas st) =
           \<lparr> v_x = 0, v_y = 0, v_width = 2048, v_height = 2048 \<rparr>"
  using assms unfolding moves_applied_def
proof (induction deltas arbitrary: st)
  case Nil
  then show ?case by simp
next
  case (Cons d ds)
  from handlePlayersMoved_shipped [OF Cons.prems, of d] Cons.prems(1)
  show ?case by (simp add: Cons.IH)
qed

text \<open>
  Claim C10. In the shipped configuration \<open>setupCanvas\<close> gives the viewport the world's
  dimensions, 2048 by 2048, so recentring on any player position leaves the camera at
  (0, 0): after one recentring, after any run of recenterings, and after any run of
  \<open>players_moved\<close> messages, whatever the local player's identifier and the table are.
\<close>

theorem shipped_viewport_never_scrolls:
  "viewport (setupCanvas (constructor_fields cw ch)) =
      \<lparr> v_x = 0, v_y = 0, v_width = 2048, v_height = 2048 \<rparr>
   \<and> viewport (centerViewportOnPlayer
        ((setupCanvas (constructor_fields cw ch))\<lparr> myPlayer := Some p \<rparr>)) =
      \<lparr> v_x = 0, v_y = 0, v_width = 2048, v_height = 2048 \<rparr>
   \<and> viewport (recenter_each ps (setupCanvas (constructor_fields cw ch))) =
      \<lparr> v_x = 0, v_y = 0, v_width = 2048, v_height = 2048 \<rparr>
   \<and> viewport (moves_applied deltas
        ((setupCanvas (constructor_fields cw ch))\<lparr> players := tbl, myPlayerId := me \<rparr>)) =
      \<lparr> v_x = 0, v_y = 0, v_width = 2048, v_height = 2048 \<rparr>"
proof -
  let ?st = "setupCanvas (constructor_fields cw ch)"
  let ?st' = "?st\<lparr> players := tbl, myPlayerId := me \<rparr>"
  have v: "viewport ?st = \<lparr> v_x = 0, v_y = 0, v_width = 2048, v_height = 2048 \<rparr>"
    and w: "worldWidth ?st = 2048" and h: "worldHeight ?st = 2048"
    by (simp_all add: setupCanvas_def constructor_fields_def Let_def)
  have v': "viewport ?st' = \<lparr> v_x = 0, v_y = 0, v_width = 2048, v_height = 2048 \<rparr>"
    and w': "worldWidth ?st' = 2048" and h': "worldHeight ?st' = 2048"
    using v w h by simp_all
  from recenter_shipped [OF v w h, of "Some p"] recenter_each_shipped [OF v w h, of ps]
       moves_applied_shipped [OF v' w' h', of deltas] v
  show ?thesis by simp
qed

section \<open>Properties of the keyboard input\<close>

lemma movementKeys_simps:
  "movementKeys ''ArrowUp'' = Some ''up''"
  "movementKeys ''ArrowLeft'' = Some ''left''"
  by (simp_all add: movementKeys_def)

lemma open_client_ws: "ws open_client = Some OPEN"
  by (simp add: example_defs Let_def)

lemma open_client_keys: "pressedKeys open_client = {||}"
  by (simp add: example_defs Let_def)

text \<open>
  Claim C3, as stated, fails: with the socket open, a key-down for \<open>ArrowUp\<close> while
  \<open>ArrowUp\<close> is already in the held set (a key repeat) sends a further \<open>move\<close>.
\<close>

theorem key_repeat_counterexample:
  "''ArrowUp'' |\<in>| pressedKeys (fst (handleKeyDown open_client ''ArrowUp''))
   \<and> snd (handleKeyDown (fst (handleKeyDown open_client ''ArrowUp'')) ''ArrowUp'')
       = [Move ''up'']"
  by (simp add: handleKeyDown_def movementKeys_simps sendMoveCommand_def open_client_ws Let_def)

text \<open>
  Claim C3, amended. For every tracked movement key, every key-down event for it on an
  open socket sends exactly one \<open>move\<close> with the key's direction and puts the key in the
  held set, whether or not the key was held before.
\<close>

theorem key_down_sends_move:
  assumes "movementKeys code = Some direction" and "ws st = Some OPEN"
  shows "snd (handleKeyDown st code) = [Move direction]
       \<and> pressedKeys (fst (handleKeyDown st code)) = finsert code (pressedKeys st)"
  using assms by (simp add: handleKeyDown_def sendMoveCommand_def Let_def)

theorem key_down_sends_move_witness:
  "movementKeys ''ArrowUp'' = Some ''up''
   \<and> ws up_held = Some OPEN
   \<and> ''ArrowUp'' |\<in>| pressedKeys up_held
   \<and> snd (handleKeyDown up_held ''ArrowUp'') = [Move ''up'']
   \<and> pressedKeys (fst (handleKeyDown up_held ''ArrowUp'')) = {|''ArrowUp''|}"
proof -
  have k: "movementKeys ''ArrowUp'' = Some ''up''" by (simp add: movementKeys_def)
  have o: "ws up_held = Some OPEN" by (simp add: up_held_def open_client_ws)
  have h: "pressedKeys up_held = {|''ArrowUp''|}" by (simp add: up_held_def)
  show ?thesis using key_down_sends_move [OF k o] k o h by simp
qed

text \<open>
  Claim C8. In any state, so after any sequence of key events, releasing a tracked key
  while another key remains in the held set sends nothing, and releasing the last held
  key issues \<open>sendStopCommand\<close> once, which on an open socket sends exactly one
  \<open>stop\<close>; the released key leaves the held set.
\<close>

theorem key_up_stop:
  assumes "movementKeys code = Some direction"
  shows "(pressedKeys st |-| {|code|} \<noteq> {||} \<longrightarrow> snd (handleKeyUp st code) = [])
       \<and> (pressedKeys st |-| {|code|} = {||} \<longrightarrow>
            snd (handleKeyUp st code) = sendStopCommand st)
       \<and> (pressedKeys st |-| {|code|} = {||} \<and> ws st = Some OPEN \<longrightarrow>
            snd (handleKeyUp st code) = [Stop])
       \<and> pressedKeys (fst (handleKeyUp st code)) = pressedKeys st |-| {|code|}"
  using assms by (simp add: handleKeyUp_def sendStopCommand_def Let_def)

theorem key_up_stop_witness:
  "movementKeys ''ArrowUp'' = Some ''up''
   \<and> pressedKeys up_left_held |-| {|''ArrowUp''|} \<noteq> {||}
   \<and> snd (handleKeyUp up_left_held ''ArrowUp'') = []
   \<and> movementKeys ''ArrowLeft'' = Some ''left''
   \<and> pressedKeys left_held |-| {|''ArrowLeft''|} = {||}
   \<and> ws left_held = Some OPEN
   \<and> snd (handleKeyUp left_held ''ArrowLeft'') = [Stop]"
proof -
  have k: "movementKeys ''ArrowUp'' = Some ''up''" "movementKeys ''ArrowLeft'' = Some ''left''"
    by (simp_all add: movementKeys_def)
  have "''ArrowLeft'' |\<in>| pressedKeys up_left_held |-| {|''ArrowUp''|}"
    by (simp add: up_left_held_def)
  then have h: "pressedKeys up_left_held |-| {|''ArrowUp''|} \<noteq> {||}"
    by blast
  have e: "pressedKeys left_held |-| {|''ArrowLeft''|} = {||}"
    by (simp add: left_held_def)
  have o: "ws left_held = Some OPEN"
    by (simp add: left_held_def open_client_ws)
  have 1: "snd (handleKeyUp up_left_held ''ArrowUp'') = []"
    using key_up_stop [OF k(1), of up_left_held] h by blast
  have 2: "snd (handleKeyUp left_held ''ArrowLeft'') = [Stop]"
    using key_up_stop [OF k(2), of left_held] e o by blast
  show ?thesis using k h e o 1 2 by blast
qed

text \<open>The scenario of the specification: up, then left, release up, release left.\<close>

lemma scenario_up_left:
  "snd (run_keys [KeyDown ''ArrowUp'', KeyDown ''ArrowLeft'', KeyUp ''ArrowUp'',
                  KeyUp ''ArrowLeft''] open_client)
     = [Move ''up'', Move ''left'', Stop]"
  by (simp add: handleKeyDown_def handleKeyUp_def movementKeys_simps sendMoveCommand_def
        sendStopCommand_def open_client_ws open_client_keys Let_def finsert_fminus_if)

section \<open>Properties of the reconnection\<close>

lemma failed_cycles_step:
  "reconnectAttempts st < maxReconnectAttempts st \<Longrightarrow>
   failed_cycles st = 2000 * (reconnectAttempts st + 1) #
     failed_cycles (st\<lparr> reconnectAttempts := reconnectAttempts st + 1, ws := Some CONNECTING \<rparr>)"
  by (subst failed_cycles.simps)
     (simp add: ws_onclose_def attemptReconnect_def connectToServer_def Let_def)

lemma failed_cycles_stop:
  "\<not> reconnectAttempts st < maxReconnectAttempts st \<Longrightarrow> failed_cycles st = []"
  by (subst failed_cycles.simps) (simp add: ws_onclose_def attemptReconnect_def)

text \<open>The delay of the \<open>k\<close>-th attempt is \<open>2000 * k\<close>, for every attempt up to the maximum.\<close>

lemma failed_cycles_delays:
  "failed_cycles st =
     map (\<lambda>k. 2000 * k) [reconnectAttempts st + 1 ..< maxReconnectAttempts st + 1]"
proof (induction "maxReconnectAttempts st - reconnectAttempts st" arbitrary: st)
  case 0
  then show ?case by (simp add: failed_cycles_stop)
next
  case (Suc n)
  let ?st' = "st\<lparr> reconnectAttempts := reconnectAttempts st + 1, ws := Some CONNECTING \<rparr>"
  from Suc.hyps(2) have lt: "reconnectAttempts st < maxReconnectAttempts st" by simp
  from Suc.hyps(2) have "n = maxReconnectAttempts ?st' - reconnectAttempts ?st'" by simp
  then have "failed_cycles ?st' =
      map (\<lambda>k. 2000 * k) [reconnectAttempts ?st' + 1 ..< maxReconnectAttempts ?st' + 1]"
    by (rule Suc.hyps(1))
  with lt show ?case
    by (simp add: failed_cycles_step upt_conv_Cons)
qed

text \<open>
  Claim C5. From a counter at 0 and a maximum of 5, consecutive failed cycles schedule
  the delays 2000, 4000, 6000, 8000 and 10000 ms and then stop: with the counter at 5 a
  further close of the socket schedules nothing. An open of the socket puts the counter
  back to 0 and leaves the maximum as it is.
\<close>

theorem reconnect_backoff_sequence:
  assumes "reconnectAttempts st = 0" and "maxReconnectAttempts st = 5"
  shows "failed_cycles st = [2000, 4000, 6000, 8000, 10000]
       \<and> snd (ws_onclose (st\<lparr> reconnectAttempts := 5 \<rparr>)) = None
       \<and> reconnectAttempts (fst (ws_onclose (st\<lparr> reconnectAttempts := 5 \<rparr>))) = 5
       \<and> reconnectAttempts (fst (ws_onopen st')) = 0
       \<and> maxReconnectAttempts (fst (ws_onopen st')) = maxReconnectAttempts st'"
  using assms
  by (simp add: failed_cycles_delays upt_conv_Cons ws_onclose_def attemptReconnect_def
        ws_onopen_def Let_def)

theorem reconnect_backoff_sequence_witness:
  "reconnectAttempts (fst (connectToServer False (setupCanvas (constructor_fields 300 150)))) = 0
   \<and> maxReconnectAttempts (fst (connectToServer False (setupCanvas (constructor_fields 300 150)))) = 5
   \<and> failed_cycles (fst (connectToServer False (setupCanvas (constructor_fields 300 150))))
       = [2000, 4000, 6000, 8000, 10000]"
proof -
  let ?st = "fst (connectToServer False (setupCanvas (constructor_fields 300 150)))"
  have a: "reconnectAttempts ?st = 0" and m: "maxReconnectAttempts ?st = 5"
    by (simp_all add: example_defs Let_def)
  show ?thesis using reconnect_backoff_sequence [OF a m] a m by simp
qed

section \<open>Properties of the player table\<close>

lemma centerViewportOnPlayer_players: "players (centerViewportOnPlayer st) = players st"
  by (simp add: centerViewportOnPlayer_def clampViewportToWorld_def Let_def split: option.splits)

lemma handlePlayersMoved_players: "players (handlePlayersMoved st delta) = players st ++ delta"
  by (simp add: handlePlayersMoved_def Let_def centerViewportOnPlayer_players split: option.splits)

text \<open>
  Claim C6. When the table holds a record for an identifier and a \<open>players_moved\<close>
  message holds a record for the same identifier, the table afterwards holds exactly the
  message's record for it.
\<close>

theorem merge_replaces_record:
  assumes "players st pid = Some old" and "delta pid = Some new"
  shows "players (handlePlayersMoved st delta) pid = Some new"
  using assms by (simp add: handlePlayersMoved_players)

text \<open>
  Claim C7. An identifier that a \<open>players_moved\<close> message does not mention keeps its
  entry in the table as it was: it is neither changed nor removed.
\<close>

theorem merge_keeps_absent:
  assumes "pid \<notin> dom delta"
  shows "players (handlePlayersMoved st delta) pid = players st pid"
  using assms by (simp add: handlePlayersMoved_players map_add_dom_app_simps)

theorem merge_replaces_record_witness:
  "players two_players ''p1-abcdef'' = Some ann
   \<and> [''p1-abcdef'' \<mapsto> ann_moved] ''p1-abcdef'' = Some ann_moved
   \<and> ann \<noteq> ann_moved
   \<and> players (handlePlayersMoved two_players [''p1-abcdef'' \<mapsto> ann_moved]) ''p1-abcdef''
       = Some ann_moved"
proof -
  have a: "players two_players ''p1-abcdef'' = Some ann" by (simp add: two_players_def)
  have b: "[''p1-abcdef'' \<mapsto> ann_moved] ''p1-abcdef'' = Some ann_moved" by simp
  have c: "ann \<noteq> ann_moved" by (simp add: ann_def ann_moved_def)
  show ?thesis
    using merge_replaces_record
            [of two_players "''p1-abcdef''" ann "[''p1-abcdef'' \<mapsto> ann_moved]" ann_moved, OF a b]
          a b c
    by simp
qed

theorem merge_keeps_absent_witness:
  "''p2-uvwxyz'' \<notin> dom [''p1-abcdef'' \<mapsto> ann_moved]
   \<and> players (handlePlayersMoved two_players [''p1-abcdef'' \<mapsto> ann_moved]) ''p2-uvwxyz''
       = Some bob"
proof -
  have a: "''p2-uvwxyz'' \<notin> dom [''p1-abcdef'' \<mapsto> ann_moved]" by simp
  have b: "players two_players ''p2-uvwxyz'' = Some bob"
    by (simp add: two_players_def)
  show ?thesis using merge_keeps_absent [OF a, of two_players] a b by simp
qed

section \<open>Properties of the sprite cache\<close>

subsection \<open>Cache keys determine the direction and the index\<close>

lemma digit_of_inj: "a < 10 \<Longrightarrow> b < 10 \<Longrightarrow> digit_of a = digit_of b \<Longrightarrow> a = b"
proof -
  assume a: "a < 10" and b: "b < 10" and e: "digit_of a = digit_of b"
  have d: "distinct ''0123456789''" by simp
  have "a < length ''0123456789''" "b < length ''0123456789''" using a b by simp_all
  with d e show "a = b" unfolding digit_of_def by (simp only: nth_eq_iff_index_eq)
qed

lemma digit_of_not_sep: "d < 10 \<Longrightarrow> digit_of d \<noteq> CHR ''_''"
proof -
  assume "d < 10"
  then have "d < length ''0123456789''" by simp
  then have "''0123456789'' ! d \<in> set ''0123456789''" by (rule nth_mem)
  then show ?thesis unfolding digit_of_def by auto
qed

lemma show_nat_nonempty: "show_nat n \<noteq> []"
  by (subst show_nat.simps) simp

lemma show_nat_no_sep: "CHR ''_'' \<notin> set (show_nat n)"
proof (induction n rule: show_nat.induct)
  case (1 n)
  show ?case
  proof (cases "n < 10")
    case True
    then show ?thesis using digit_of_not_sep [of n] by (subst show_nat.simps) auto
  next
    case False
    have "n mod 10 < 10" by simp
    then have "digit_of (n mod 10) \<noteq> CHR ''_''" by (rule digit_of_not_sep)
    with False 1 show ?thesis by (subst show_nat.simps) auto
  qed
qed

lemma show_nat_inj: "show_nat a = show_nat b \<Longrightarrow> a = b"
proof (induction a arbitrary: b rule: show_nat.induct)
  case (1 a)
  have mb: "b mod 10 < 10" and ma: "a mod 10 < 10" by simp_all
  show ?case
  proof (cases "a < 10")
    case a: True
    show ?thesis
    proof (cases "b < 10")
      case True
      with a 1(2) have "digit_of a = digit_of b"
        by (simp add: show_nat.simps [of a] show_nat.simps [of b])
      with a True show ?thesis by (rule digit_of_inj)
    next
      case False
      with a 1(2) have "[digit_of a] = show_nat (b div 10) @ [digit_of (b mod 10)]"
        by (simp add: show_nat.simps [of a] show_nat.simps [of b])
      then have "show_nat (b div 10) = []" by simp
      then show ?thesis by (simp add: show_nat_nonempty)
    qed
  next
    case a: False
    show ?thesis
    proof (cases "b < 10")
      case True
      with a 1(2) have "show_nat (a div 10) @ [digit_of (a mod 10)] = [digit_of b]"
        by (simp add: show_nat.simps [of a] show_nat.simps [of b])
      then have "show_nat (a div 10) = []" by simp
      then show ?thesis by (simp add: show_nat_nonempty)
    next
      case False
      with a 1(2) have "show_nat (a div 10) @ [digit_of (a mod 10)]
                      = show_nat (b div 10) @ [digit_of (b mod 10)]"
        by (simp add: show_nat.simps [of a] show_nat.simps [of b])
      then have e1: "show_nat (a div 10) = show_nat (b div 10)"
        and e2: "digit_of (a mod 10) = digit_of (b mod 10)" by simp_all
      from 1(1) [OF a e1] have d: "a div 10 = b div 10" .
      from digit_of_inj [OF ma mb e2] have m: "a mod 10 = b mod 10" .
      from d m show ?thesis by (metis div_mult_mod_eq)
    qed
  qed
qed

lemma split_at_first_sep:
  "us @ c # vs = us' @ c # vs' \<Longrightarrow> c \<notin> set us \<Longrightarrow> c \<notin> set us' \<Longrightarrow> us = us' \<and> vs = vs'"
proof (induction us arbitrary: us')
  case Nil
  then show ?case by (cases us') auto
next
  case (Cons u us)
  then show ?case by (cases us') auto
qed

lemma split_at_last_sep:
  assumes "xs @ c # ys = xs' @ c # ys'" and "c \<notin> set ys" and "c \<notin> set ys'"
  shows "xs = xs' \<and> ys = ys'"
proof -
  from assms(1) have "rev ys @ c # rev xs = rev ys' @ c # rev xs'"
    by (metis rev_append rev.simps(2) append_assoc append_Cons append_Nil)
  moreover have "c \<notin> set (rev ys)" "c \<notin> set (rev ys')" using assms by simp_all
  ultimately have "rev ys = rev ys' \<and> rev xs = rev xs'"
    by (rule split_at_first_sep)
  then show ?thesis by simp
qed

lemma cacheKey_inj:
  "cacheKey name d (int i) = cacheKey name d' (int j) \<longleftrightarrow> d = d' \<and> i = j"
proof
  assume "cacheKey name d (int i) = cacheKey name d' (int j)"
  then have "d @ CHR ''_'' # show_nat i = d' @ CHR ''_'' # show_nat j"
    by (simp add: cacheKey_def show_int_def)
  then have "d = d' \<and> show_nat i = show_nat j"
    by (rule split_at_last_sep) (rule show_nat_no_sep)+
  then show "d = d' \<and> i = j" by (auto dest: show_nat_inj)
qed simp


subsection \<open>What a preload starts\<close>

lemma concat_map_if: "concat (map (\<lambda>x. if P x then [f x] else []) xs) = map f (filter P xs)"
  by (induction xs) simp_all

lemma preloadDirection_filter:
  "preloadDirection st av d frs = filter (uncached st) (directionFrames av d frs)"
proof -
  have "preloadDirection st av d frs =
      concat (map (\<lambda>x. if avatarImageCache st (cacheKey (a_name av) d (int (fst x))) = None
                        then [(cacheKey (a_name av) d (int (fst x)), snd x)] else [])
                  (enumerate 0 frs))"
    by (simp add: preloadDirection_def Let_def case_prod_unfold)
  also have "\<dots> = map (\<lambda>x. (cacheKey (a_name av) d (int (fst x)), snd x))
                     (filter (\<lambda>x. avatarImageCache st (cacheKey (a_name av) d (int (fst x))) = None)
                        (enumerate 0 frs))"
    by (rule concat_map_if)
  also have "\<dots> = filter (uncached st) (directionFrames av d frs)"
    by (simp add: directionFrames_def uncached_def filter_map comp_def case_prod_unfold)
  finally show ?thesis .
qed

lemma preload_filter:
  "preloadAvatarImages st (Some av) = filter (uncached st) (avatarFrames av)"
proof (cases "a_frames av")
  case None
  then show ?thesis by (simp add: preloadAvatarImages_def avatarFrames_def)
next
  case (Some fr)
  have "concat (map (\<lambda>d. case map_of fr d of None \<Rightarrow> [] | Some frs \<Rightarrow> preloadDirection st av d frs) ds)
      = filter (uncached st)
          (concat (map (\<lambda>d. case map_of fr d of None \<Rightarrow> [] | Some frs \<Rightarrow> directionFrames av d frs) ds))"
    for ds
    by (induction ds) (simp_all add: preloadDirection_filter split: option.splits)
  with Some show ?thesis by (simp add: preloadAvatarImages_def avatarFrames_def del: map_map)
qed

lemma filter_eq_upt: "filter (\<lambda>j. j = i) [0..<n] = (if i < n then [i] else [])"
  by (induction n) auto

lemma directionFrames_upt:
  "directionFrames av d frs = map (\<lambda>j. (cacheKey (a_name av) d (int j), frs ! j)) [0..<length frs]"
  by (auto intro!: nth_equalityI simp: directionFrames_def nth_enumerate_eq)

lemma decodes_of_directionFrames:
  "decodes_of (cacheKey (a_name av) d (int i)) (directionFrames av d' frs) =
     (if d' = d \<and> i < length frs then [(cacheKey (a_name av) d (int i), frs ! i)] else [])"
proof -
  have "decodes_of (cacheKey (a_name av) d (int i)) (directionFrames av d' frs) =
      map (\<lambda>j. (cacheKey (a_name av) d' (int j), frs ! j))
        (filter (\<lambda>j. d' = d \<and> j = i) [0..<length frs])"
    by (simp add: decodes_of_def directionFrames_upt filter_map comp_def cacheKey_inj)
  also have "\<dots> = (if d' = d \<and> i < length frs then [(cacheKey (a_name av) d (int i), frs ! i)] else [])"
    by (cases "d' = d") (simp_all add: filter_eq_upt)
  finally show ?thesis .
qed

lemma decodes_of_avatarFrames:
  assumes "a_frames av = Some fr" and "distinct (map fst fr)"
      and "map_of fr d = Some frs" and "i < length frs"
  shows "decodes_of (cacheKey (a_name av) d (int i)) (avatarFrames av) =
           [(cacheKey (a_name av) d (int i), frs ! i)]"
proof -
  let ?k = "cacheKey (a_name av) d (int i)"
  have step: "distinct ds \<Longrightarrow>
      decodes_of ?k (concat (map (\<lambda>d'. case map_of fr d' of None \<Rightarrow> []
                                         | Some frs' \<Rightarrow> directionFrames av d' frs') ds))
      = (if d \<in> set ds then [(?k, frs ! i)] else [])" for ds
  proof (induction ds)
    case Nil
    then show ?case by (simp add: decodes_of_def)
  next
    case (Cons d' ds)
    have app: "decodes_of ?k (xs @ ys) = decodes_of ?k xs @ decodes_of ?k ys" for xs ys
      by (simp add: decodes_of_def)
    have hd: "decodes_of ?k (case map_of fr d' of None \<Rightarrow> [] | Some frs' \<Rightarrow> directionFrames av d' frs')
        = (if d' = d then [(?k, frs ! i)] else [])"
      using assms(3,4)
      by (auto simp: decodes_of_directionFrames split: option.splits) (simp add: decodes_of_def)
    from Cons show ?case by (auto simp: app hd)
  qed
  from assms(3) have "(d, frs) \<in> set fr" by (rule map_of_SomeD)
  then have "d \<in> set (map fst fr)" by force
  with step [OF assms(2)] assms(1) show ?thesis by (simp add: avatarFrames_def del: map_map)
qed

lemma decodes_of_preload:
  assumes "a_frames av = Some fr" and "distinct (map fst fr)"
      and "map_of fr d = Some frs" and "i < length frs"
  shows "decodes_of (cacheKey (a_name av) d (int i)) (preloadAvatarImages st (Some av)) =
           (if avatarImageCache st (cacheKey (a_name av) d (int i)) = None
            then [(cacheKey (a_name av) d (int i), frs ! i)] else [])"
proof -
  have "decodes_of k (filter (uncached st) xs) = filter (uncached st) (decodes_of k xs)" for k xs
    by (induction xs) (simp_all add: decodes_of_def)
  then show ?thesis
    using decodes_of_avatarFrames [OF assms]
    by (simp add: preload_filter uncached_def)
qed

lemma loads_complete_cache:
  "avatarImageCache (loads_complete dims loads st) k \<noteq> None \<longleftrightarrow>
     avatarImageCache st k \<noteq> None \<or> k \<in> fst ` set loads"
  unfolding loads_complete_def
  by (induction loads arbitrary: st) (auto simp: image_onload_def)

lemma preload_after_completion:
  "preloadAvatarImages (loads_complete dims (preloadAvatarImages st (Some av)) st) (Some av) = []"
proof -
  have "\<not> uncached (loads_complete dims (preloadAvatarImages st (Some av)) st) x"
    if "x \<in> set (avatarFrames av)" for x
  proof (cases "uncached st x")
    case True
    with that have "x \<in> set (preloadAvatarImages st (Some av))" by (simp add: preload_filter)
    then have "fst x \<in> fst ` set (preloadAvatarImages st (Some av))" by (rule imageI)
    then show ?thesis using loads_complete_cache [of dims _ st "fst x"]
      by (auto simp: uncached_def case_prod_beta)
  next
    case False
    then show ?thesis using loads_complete_cache [of dims _ st "fst x"]
      by (auto simp: uncached_def case_prod_beta)
  qed
  then show ?thesis by (simp add: preload_filter filter_empty_conv del: not_None_eq)
qed

subsection \<open>The example avatar\<close>

lemma key_examples:
  "cacheKey ''knight'' ''east'' 0 = ''knight_east_0''"
  "cacheKey ''knight'' ''east'' 1 = ''knight_east_1''"
  "cacheKey ''knight'' ''east'' 5 = ''knight_east_5''"
  "cacheKey ''knight'' ''west'' 0 = ''knight_west_0''"
  "cacheKey ''knight'' ''south'' 0 = ''knight_south_0''"
  by (simp_all add: cacheKey_def show_int_def show_nat.simps digit_of_def)

lemma knight_preload:
  "avatarImageCache st ''knight_east_0'' = None \<Longrightarrow>
   avatarImageCache st ''knight_east_1'' = None \<Longrightarrow>
   avatarImageCache st ''knight_south_0'' = None \<Longrightarrow>
   preloadAvatarImages st (Some knight) =
     [(''knight_east_0'', ''E0''), (''knight_east_1'', ''E1''), (''knight_south_0'', ''S0'')]"
  by (simp add: preloadAvatarImages_def preloadDirection_def knight_def enumerate_simps
        cacheKey_def show_int_def show_nat.simps digit_of_def Let_def)

lemma open_client_cache: "avatarImageCache open_client = Map.empty"
  by (simp add: example_defs Let_def)

lemma loaded_client_cache:
  "avatarImageCache loaded_client =
     [''knight_east_0'' \<mapsto> \<lparr> c_image = ''E0'', c_width = 64, c_height = 128 \<rparr>,
      ''knight_east_1'' \<mapsto> \<lparr> c_image = ''E1'', c_width = 64, c_height = 128 \<rparr>,
      ''knight_south_0'' \<mapsto> \<lparr> c_image = ''S0'', c_width = 64, c_height = 128 \<rparr>]"
  by (simp add: loaded_client_def handlePlayerJoined_def Let_def knight_preload open_client_cache
        loads_complete_def image_onload_def sprite_dims_def)

lemma loaded_client_avatars: "avatars loaded_client ''knight'' = Some knight"
proof -
  have "avatars (loads_complete dims loads st) = avatars st" for dims loads st
    unfolding loads_complete_def
    by (induction loads arbitrary: st) (simp_all add: image_onload_def case_prod_unfold)
  then show ?thesis
    by (simp add: loaded_client_def handlePlayerJoined_def Let_def case_prod_unfold knight_def)
qed

lemma loaded_client_viewport:
  "viewport loaded_client = \<lparr> v_x = 0, v_y = 0, v_width = 2048, v_height = 2048 \<rparr>"
proof -
  have "viewport (loads_complete dims loads st) = viewport st" for dims loads st
    unfolding loads_complete_def
    by (induction loads arbitrary: st) (simp_all add: image_onload_def case_prod_unfold)
  then show ?thesis
    by (simp add: loaded_client_def handlePlayerJoined_def Let_def case_prod_unfold example_defs)
qed

lemma knight_name: "a_name knight = ''knight''"
  by (simp add: knight_def)

lemma knight_frames:
  "getAvatarFrame knight ''east'' (Some 0) = Some ''E0''"
  "getAvatarFrame knight ''west'' (Some 0) = Some ''E0''"
  "getAvatarFrame knight ''east'' (Some 5) = Some ''E1''"
  by (simp_all add: getAvatarFrame_def knight_def Let_def)

text \<open>
  Claim C2, as stated, fails: two calls of the preload with the same avatar, with no
  load completing in between, start two decodings for the key of the first east frame.
\<close>

theorem preload_twice_counterexample:
  "decodes_of (cacheKey ''knight'' ''east'' 0)
     (preloadAvatarImages open_client (Some knight) @ preloadAvatarImages open_client (Some knight))
   = [(''knight_east_0'', ''E0''), (''knight_east_0'', ''E0'')]"
  by (simp add: knight_preload open_client_cache key_examples decodes_of_def)

text \<open>
  Claim C2, amended. For an avatar whose frame table has each direction once, one call
  of the preload starts exactly one decoding for every (direction, index) key that has
  no cache entry and none for a key that has one; a second call before any load
  completes starts the same decodings again; a call after the loads of the first have
  completed starts none.
\<close>

theorem preload_decodes_uncached:
  assumes "a_frames av = Some fr" and "distinct (map fst fr)"
      and "map_of fr d = Some frs" and "i < length frs"
  shows "decodes_of (cacheKey (a_name av) d (int i)) (preloadAvatarImages st (Some av)) =
           (if avatarImageCache st (cacheKey (a_name av) d (int i)) = None
            then [(cacheKey (a_name av) d (int i), frs ! i)] else [])
       \<and> decodes_of (cacheKey (a_name av) d (int i))
           (preloadAvatarImages st (Some av) @ preloadAvatarImages st (Some av)) =
           (if avatarImageCache st (cacheKey (a_name av) d (int i)) = None
            then [(cacheKey (a_name av) d (int i), frs ! i),
                  (cacheKey (a_name av) d (int i), frs ! i)] else [])
       \<and> preloadAvatarImages
           (loads_complete dims (preloadAvatarImages st (Some av)) st) (Some av) = []"
proof -
  have app: "decodes_of k (xs @ ys) = decodes_of k xs @ decodes_of k ys" for k xs ys
    by (simp add: decodes_of_def)
  show ?thesis
    by (simp add: app decodes_of_preload [OF assms] preload_after_completion)
qed

theorem preload_decodes_uncached_witness:
  "a_frames knight = Some [(''east'', [''E0'', ''E1'']), (''south'', [''S0''])]
   \<and> distinct (map fst [(''east'', [''E0'', ''E1'']), (''south'', [''S0''])])
   \<and> map_of [(''east'', [''E0'', ''E1'']), (''south'', [''S0''])] ''east'' = Some [''E0'', ''E1'']
   \<and> (0::nat) < length [''E0'', ''E1'']
   \<and> decodes_of (cacheKey ''knight'' ''east'' 0) (preloadAvatarImages open_client (Some knight))
       = [(''knight_east_0'', ''E0'')]
   \<and> preloadAvatarImages
       (loads_complete sprite_dims (preloadAvatarImages open_client (Some knight)) open_client)
       (Some knight) = []"
proof -
  have a: "a_frames knight = Some [(''east'', [''E0'', ''E1'']), (''south'', [''S0''])]"
    by (simp add: knight_def)
  have b: "distinct (map fst [(''east'', [''E0'', ''E1'']), (''south'', [''S0''])])"
    by simp
  have c: "map_of [(''east'', [''E0'', ''E1'']), (''south'', [''S0''])] ''east''
            = Some [''E0'', ''E1'']"
    by simp
  have d: "(0::nat) < length [''E0'', ''E1'']" by simp
  show ?thesis
    using preload_decodes_uncached [OF a b c d, of open_client sprite_dims] a b c d
    by (simp add: open_client_cache key_examples knight_name)
qed

subsection \<open>Frames resolved and frames drawn\<close>

text \<open>\<open>getAvatarFrame\<close> resolves a west-facing frame to the east frame of the same index,
  and an index beyond the last frame to the last frame.\<close>

lemma getAvatarFrame_west: "getAvatarFrame av ''west'' i = getAvatarFrame av ''east'' i"
  by (simp add: getAvatarFrame_def)

lemma getAvatarFrame_clamped:
  assumes "a_frames av = Some fr" and "map_of fr d = Some frames" and "d \<noteq> ''west''"
      and "frames \<noteq> []" and "int (length frames) \<le> i"
  shows "getAvatarFrame av d (Some i) = Some (last frames)"
proof -
  have "nat (int (length frames) - 1) = length frames - 1" by linarith
  with assms show ?thesis
    by (simp add: getAvatarFrame_def Let_def min_def last_conv_nth)
qed

text \<open>\<open>drawPlayer\<close> looks the image up under the facing and the index of the player as
  they are, and draws nothing when that key has no entry.\<close>

lemma drawPlayer_needs_requested_key:
  assumes "avatars st (p_avatar p) = Some av"
      and "avatarImageCache st (cacheKey (a_name av) (p_facing p)
             (case p_animationFrame p of None \<Rightarrow> 0 | Some i \<Rightarrow> i)) = None"
  shows "drawPlayer st p = []"
  using assms by (simp add: drawPlayer_def Let_def split: option.splits)

text \<open>
  Claim C1, on the code. The avatar has east frames and no west frames, and every image
  of the preload has loaded. For the west-facing player \<open>getAvatarFrame\<close> returns the east
  frame and the cache holds the decoded east frame under the east key, but \<open>drawPlayer\<close>
  looks under the west key, finds nothing and draws nothing; the same player facing east
  is drawn.
\<close>

theorem west_player_not_drawn:
  "getAvatarFrame knight ''west'' (Some 0) = Some ''E0''
   \<and> avatarImageCache loaded_client (cacheKey ''knight'' ''east'' 0)
       = Some \<lparr> c_image = ''E0'', c_width = 64, c_height = 128 \<rparr>
   \<and> avatarImageCache loaded_client (cacheKey ''knight'' ''west'' 0) = None
   \<and> drawPlayer loaded_client (ann\<lparr> p_facing := ''west'' \<rparr>) = []
   \<and> drawPlayer loaded_client ann =
       [DrawImage ''E0'' 68 36 64 128, SetFillStyle ''white'', SetStrokeStyle ''black'',
        SetLineWidth 2, SetFont ''12px Arial'', SetTextAlign ''center'',
        StrokeText ''Ann (p1-a)'' 100 31, FillText ''Ann (p1-a)'' 100 31]"
  by (simp add: drawPlayer_def drawPlayerLabel_def knight_frames key_examples
        loaded_client_cache loaded_client_avatars loaded_client_viewport knight_name ann_def
        Let_def)

text \<open>
  Claim C9, on the code. For the index 5 on a list of two frames \<open>getAvatarFrame\<close> returns
  the last frame and the cache holds it under the index 1, but \<open>drawPlayer\<close> looks under
  the index 5, finds nothing and draws nothing.
\<close>

theorem out_of_range_frame_not_drawn:
  "getAvatarFrame knight ''east'' (Some 5) = Some ''E1''
   \<and> avatarImageCache loaded_client (cacheKey ''knight'' ''east'' 1)
       = Some \<lparr> c_image = ''E1'', c_width = 64, c_height = 128 \<rparr>
   \<and> avatarImageCache loaded_client (cacheKey ''knight'' ''east'' 5) = None
   \<and> drawPlayer loaded_client (ann\<lparr> p_animationFrame := Some 5 \<rparr>) = []"
  by (simp add: drawPlayer_def drawPlayerLabel_def knight_frames key_examples
        loaded_client_cache loaded_client_avatars loaded_client_viewport knight_name ann_def
        Let_def)


end
